theory Spec2Isabelle
  imports Main
begin

section \<open>Error codes and configuration (include/config.h)\<close>

text \<open>
  C \<open>int\<close> and \<open>time_t\<close> values are modelled as mathematical integers. The counters of
  this program stay far below the machine bounds on every reachable state (see the
  invariant on \<open>failed_attempts\<close> below); where a theorem speaks about an arbitrary
  state, the absence of signed overflow is written as a hypothesis.
  Fixed-capacity C strings are modelled as \<open>string\<close>; copying into a 256-byte buffer
  with \<open>strncpy(dst, src, 255); dst[255] = 0\<close> is \<open>take 255\<close>.
\<close>

definition KIA_SUCCESS :: int where "KIA_SUCCESS = 0"
definition KIA_ERROR_CONFIG :: int where "KIA_ERROR_CONFIG = -1"
definition KIA_ERROR_AUTH :: int where "KIA_ERROR_AUTH = -2"
definition KIA_ERROR_SESSION :: int where "KIA_ERROR_SESSION = -3"
definition KIA_ERROR_SYSTEM :: int where "KIA_ERROR_SYSTEM = -4"
definition KIA_ERROR_PAM :: int where "KIA_ERROR_PAM = -5"

lemmas kia_codes =
  KIA_SUCCESS_def KIA_ERROR_CONFIG_def KIA_ERROR_AUTH_def
  KIA_ERROR_SESSION_def KIA_ERROR_SYSTEM_def KIA_ERROR_PAM_def

record kia_config =
  autologin_user :: string
  autologin_enabled :: bool
  default_session :: string
  max_attempts :: int
  enable_logs :: bool
  lockout_duration :: int

definition MIN_MAX_ATTEMPTS :: int where "MIN_MAX_ATTEMPTS = 1"
definition MAX_MAX_ATTEMPTS :: int where "MAX_MAX_ATTEMPTS = 10"

text \<open>\<open>config_validate\<close> (src/config.c): a null pointer is \<open>None\<close>.\<close>

definition config_validate :: "kia_config option \<Rightarrow> int" where
  "config_validate config =
     (case config of
        None \<Rightarrow> KIA_ERROR_CONFIG
      | Some c \<Rightarrow>
          if max_attempts c < MIN_MAX_ATTEMPTS \<or> max_attempts c > MAX_MAX_ATTEMPTS
          then KIA_ERROR_CONFIG
          else if lockout_duration c < 0 then KIA_ERROR_CONFIG
          else KIA_SUCCESS)"

section \<open>Authenticator (include/auth.h, src/auth.c)\<close>

record auth_state =
  username :: string
  failed_attempts :: int
  lockout_until :: int

text \<open>
  The identity provider (PAM) is external. One call of \<open>auth_authenticate\<close> sees its
  answers to \<open>pam_start\<close>, \<open>pam_authenticate\<close> and \<open>pam_acct_mgmt\<close>; they are
  arbitrary functions of the identity and the secret, so the theorems hold for every
  provider. \<open>PAM_SUCCESS\<close> is 0.
\<close>

definition PAM_SUCCESS :: int where "PAM_SUCCESS = 0"

record pam_provider =
  pam_start :: "string \<Rightarrow> int"
  pam_authenticate :: "string \<Rightarrow> string \<Rightarrow> int"
  pam_acct_mgmt :: "string \<Rightarrow> int"

text \<open>
  What a call does outside the state: the terminal-switch lock and the calls to the
  provider, in order. Log lines are not modelled.
\<close>

datatype auth_event =
  TtyLock | TtyUnlock
  | PamStart string | PamAuthenticate string | PamAcctMgmt | PamEnd

text \<open>
  \<open>auth_is_locked_out\<close>: \<open>now\<close> is what \<open>time(NULL)\<close> returns, read only when
  \<open>lockout_until\<close> is set. The state is passed by pointer, so the function returns
  the state it leaves behind.
\<close>

definition auth_is_locked_out :: "int \<Rightarrow> auth_state option \<Rightarrow> bool \<times> auth_state option" where
  "auth_is_locked_out now state =
     (case state of
        None \<Rightarrow> (False, None)
      | Some s \<Rightarrow>
          if lockout_until s = 0 then (False, Some s)
          else if now \<ge> lockout_until s
          then (False, Some (s\<lparr>lockout_until := 0, failed_attempts := 0\<rparr>))
          else (True, Some s))"

definition auth_reset_attempts :: "auth_state option \<Rightarrow> auth_state option" where
  "auth_reset_attempts state =
     (case state of
        None \<Rightarrow> None
      | Some s \<Rightarrow> Some (s\<lparr>failed_attempts := 0, lockout_until := 0\<rparr>))"

text \<open>
  The failure branch shared by both provider rejections (auth.c lines 187-192 and
  207-217): count the attempt, and lock when the threshold is reached. \<open>now\<close> is the
  clock reading taken at that moment.
\<close>

definition record_failure :: "int \<Rightarrow> kia_config \<Rightarrow> auth_state \<Rightarrow> auth_state" where
  "record_failure now cfg s =
     (let s' = s\<lparr>failed_attempts := failed_attempts s + 1\<rparr>
      in if failed_attempts s' \<ge> max_attempts cfg
         then s'\<lparr>lockout_until := now + lockout_duration cfg\<rparr>
         else s')"

text \<open>
  \<open>auth_authenticate\<close>: \<open>t_check\<close> is the clock reading of the lock-out check,
  \<open>t_fail\<close> the later one taken when a rejection reaches the threshold. The result is
  the return code, the state left behind, and the events of the call.
\<close>

definition auth_authenticate ::
  "pam_provider \<Rightarrow> int \<Rightarrow> int \<Rightarrow> string option \<Rightarrow> string option \<Rightarrow>
   kia_config option \<Rightarrow> auth_state option \<Rightarrow> int \<times> auth_state option \<times> auth_event list" where
  "auth_authenticate pam t_check t_fail user password config state =
     (case (user, password, config, state) of
        (Some u, Some pw, Some cfg, Some s0) \<Rightarrow>
          (case auth_is_locked_out t_check (Some s0) of
             (True, st) \<Rightarrow> (KIA_ERROR_AUTH, st, [])
           | (False, None) \<Rightarrow> (KIA_ERROR_AUTH, None, [])
           | (False, Some s1) \<Rightarrow>
               let s2 = (if username s1 \<noteq> u
                         then s1\<lparr>username := take 255 u, failed_attempts := 0,
                                 lockout_until := 0\<rparr>
                         else s1)
               in if pam_start pam u \<noteq> PAM_SUCCESS
                  then (KIA_ERROR_PAM, Some s2, [TtyLock, PamStart u, TtyUnlock])
                  else if pam_authenticate pam u pw = PAM_SUCCESS
                  then if pam_acct_mgmt pam u \<noteq> PAM_SUCCESS
                       then (KIA_ERROR_AUTH, Some (record_failure t_fail cfg s2),
                             [TtyLock, PamStart u, PamAuthenticate pw, PamAcctMgmt, PamEnd,
                              TtyUnlock])
                       else (KIA_SUCCESS, auth_reset_attempts (Some s2),
                             [TtyLock, PamStart u, PamAuthenticate pw, PamAcctMgmt, PamEnd,
                              TtyUnlock])
                  else (KIA_ERROR_AUTH, Some (record_failure t_fail cfg s2),
                        [TtyLock, PamStart u, PamAuthenticate pw, PamEnd, TtyUnlock]))
      | _ \<Rightarrow> (KIA_ERROR_AUTH, state, []))"

section \<open>Configuration provider (src/config.c)\<close>

definition DEFAULT_AUTOLOGIN_ENABLED :: bool where "DEFAULT_AUTOLOGIN_ENABLED = False"
definition DEFAULT_AUTOLOGIN_USER :: string where "DEFAULT_AUTOLOGIN_USER = []"
definition DEFAULT_SESSION :: string where "DEFAULT_SESSION = ''xfce''"
definition DEFAULT_MAX_ATTEMPTS :: int where "DEFAULT_MAX_ATTEMPTS = 3"
definition DEFAULT_ENABLE_LOGS :: bool where "DEFAULT_ENABLE_LOGS = True"
definition DEFAULT_LOCKOUT_DURATION :: int where "DEFAULT_LOCKOUT_DURATION = 60"

lemmas config_defaults =
  DEFAULT_AUTOLOGIN_ENABLED_def DEFAULT_AUTOLOGIN_USER_def DEFAULT_SESSION_def
  DEFAULT_MAX_ATTEMPTS_def DEFAULT_ENABLE_LOGS_def DEFAULT_LOCKOUT_DURATION_def

definition config_set_defaults :: "kia_config \<Rightarrow> kia_config" where
  "config_set_defaults config =
     config\<lparr>autologin_enabled := DEFAULT_AUTOLOGIN_ENABLED,
            autologin_user := take 255 DEFAULT_AUTOLOGIN_USER,
            default_session := take 255 DEFAULT_SESSION,
            max_attempts := DEFAULT_MAX_ATTEMPTS,
            enable_logs := DEFAULT_ENABLE_LOGS,
            lockout_duration := DEFAULT_LOCKOUT_DURATION\<rparr>"

text \<open>\<open>isspace\<close> of the C locale: space, \<open>\t\<close>, \<open>\n\<close>, \<open>\v\<close>, \<open>\f\<close>, \<open>\r\<close>.\<close>

definition isspace :: "char \<Rightarrow> bool" where
  "isspace c = (c = CHR '' '' \<or> c = CHR 0x09 \<or> c = CHR 0x0A \<or> c = CHR 0x0B
                \<or> c = CHR 0x0C \<or> c = CHR 0x0D)"

text \<open>
  \<open>trim_whitespace\<close>: skip leading space; an all-space string is returned empty; then
  the end pointer walks back over trailing space, never past the first character.
\<close>

definition trim_whitespace :: "string \<Rightarrow> string" where
  "trim_whitespace str =
     (let s = dropWhile isspace str
      in if s = [] then s else hd s # rev (dropWhile isspace (rev (tl s))))"

definition parse_bool :: "string \<Rightarrow> bool" where
  "parse_bool v = (v = ''true'' \<or> v = ''1'' \<or> v = ''yes'' \<or> v = ''on'')"

text \<open>
  \<open>atoi\<close> belongs to the C library, not to this repository, and C leaves its result
  undefined when the digits do not fit an \<open>int\<close>. The parser therefore takes the
  conversion as a parameter, and every general theorem holds for any conversion.
  \<open>atoi_c\<close> is the function the C standard describes where the value is representable:
  leading white space, an optional sign, then decimal digits up to the first other
  character.
\<close>

definition isdigit :: "char \<Rightarrow> bool" where
  "isdigit c = (48 \<le> (of_char c :: nat) \<and> (of_char c :: nat) \<le> 57)"

definition digits_value :: "string \<Rightarrow> int" where
  "digits_value ds = foldl (\<lambda>acc c. 10 * acc + (int (of_char c) - 48)) 0 ds"

definition atoi_c :: "string \<Rightarrow> int" where
  "atoi_c str =
     (case dropWhile isspace str of
        [] \<Rightarrow> 0
      | c # cs \<Rightarrow>
          if c = CHR ''-'' then - digits_value (takeWhile isdigit cs)
          else if c = CHR ''+'' then digits_value (takeWhile isdigit cs)
          else digits_value (takeWhile isdigit (c # cs)))"

text \<open>
  \<open>parse_config_line\<close>: \<open>strchr(line, '=')\<close> splits at the first equals sign; the key is
  what precedes it and the value what follows, both trimmed. Every error return
  precedes the store into the configuration.
\<close>

definition parse_config_line ::
  "(string \<Rightarrow> int) \<Rightarrow> string option \<Rightarrow> kia_config option \<Rightarrow> int \<times> kia_config option" where
  "parse_config_line atoi line config =
     (case (line, config) of
        (Some l, Some c) \<Rightarrow>
          if l = [] \<or> take 1 l = ''#'' then (KIA_SUCCESS, Some c)
          else if CHR ''='' \<notin> set l then (KIA_ERROR_CONFIG, Some c)
          else
            let key = trim_whitespace (takeWhile (\<lambda>x. x \<noteq> CHR ''='') l);
                val = trim_whitespace (drop 1 (dropWhile (\<lambda>x. x \<noteq> CHR ''='') l))
            in if key = [] then (KIA_ERROR_CONFIG, Some c)
               else if key = ''autologin_enabled''
               then (KIA_SUCCESS, Some (c\<lparr>autologin_enabled := parse_bool val\<rparr>))
               else if key = ''autologin_user''
               then (if length val \<ge> 256 then (KIA_ERROR_CONFIG, Some c)
                     else (KIA_SUCCESS, Some (c\<lparr>autologin_user := take 255 val\<rparr>)))
               else if key = ''default_session''
               then (if length val \<ge> 256 then (KIA_ERROR_CONFIG, Some c)
                     else (KIA_SUCCESS, Some (c\<lparr>default_session := take 255 val\<rparr>)))
               else if key = ''max_attempts''
               then (if val = [] then (KIA_ERROR_CONFIG, Some c)
                     else let attempts = atoi val
                          in if attempts < MIN_MAX_ATTEMPTS \<or> attempts > MAX_MAX_ATTEMPTS
                             then (KIA_ERROR_CONFIG, Some c)
                             else (KIA_SUCCESS, Some (c\<lparr>max_attempts := attempts\<rparr>)))
               else if key = ''enable_logs''
               then (KIA_SUCCESS, Some (c\<lparr>enable_logs := parse_bool val\<rparr>))
               else if key = ''lockout_duration''
               then (if val = [] then (KIA_ERROR_CONFIG, Some c)
                     else let duration = atoi val
                          in if duration < 0 \<or> duration > 3600
                             then (KIA_ERROR_CONFIG, Some c)
                             else (KIA_SUCCESS, Some (c\<lparr>lockout_duration := duration\<rparr>)))
               else (KIA_SUCCESS, Some c)
      | _ \<Rightarrow> (KIA_ERROR_CONFIG, config))"

text \<open>
  An open file is the bytes it will still deliver and a flag \<open>err\<close> telling whether
  these bytes end in a read error rather than at the end of the file. \<open>fgets n\<close>
  stores at most \<open>n - 1\<close> characters, stopping after a newline. It returns nothing when
  no byte is left, and nothing when the bytes run out in a read error before a newline
  and before the buffer is full (the stored characters are then lost). The third
  component is the end-of-file indicator after a successful call: set when the read ran
  into the end of the file.
\<close>

definition fgets :: "nat \<Rightarrow> bool \<Rightarrow> string \<Rightarrow> (string \<times> string \<times> bool) option" where
  "fgets n err stream =
     (if stream = [] then None
      else
        let avail = take (n - 1) stream;
            body = takeWhile (\<lambda>c. c \<noteq> CHR 0x0A) avail;
            line = (if length body < length avail then body @ [CHR 0x0A] else body);
            rest = drop (length line) stream;
            at_end = (rest = [] \<and> length line < n - 1 \<and> last line \<noteq> CHR 0x0A)
        in if at_end \<and> err then None else Some (line, rest, at_end))"

text \<open>A buffer read as a C string ends at its first NUL byte.\<close>

definition cstr :: "string \<Rightarrow> string" where
  "cstr buf = takeWhile (\<lambda>c. c \<noteq> CHR 0x00) buf"

text \<open>The \<open>fgetc\<close> loop that discards the rest of an over-long line, newline included.\<close>

definition skip_line :: "string \<Rightarrow> string" where
  "skip_line stream = drop 1 (dropWhile (\<lambda>c. c \<noteq> CHR 0x0A) stream)"

lemma fgets_shorter:
  assumes "fgets 1024 err stream = Some (line, rest, eof)"
  shows "length rest < length stream"
proof -
  define avail where "avail = take 1023 stream"
  define body where "body = takeWhile (\<lambda>c. c \<noteq> CHR 0x0A) avail"
  define ln where "ln = (if length body < length avail then body @ [CHR 0x0A] else body)"
  from assms have ne: "stream \<noteq> []"
    by (auto simp: fgets_def split: if_splits)
  have avail_ne: "avail \<noteq> []" using ne by (simp add: avail_def)
  from assms ne have "line = ln \<and> rest = drop (length ln) stream"
    unfolding fgets_def Let_def ln_def body_def avail_def
    by (auto split: if_splits)
  then have rest: "rest = drop (length ln) stream" by simp
  have "length body \<le> length avail"
    by (simp add: body_def length_takeWhile_le)
  then have "ln \<noteq> []" using avail_ne by (auto simp: ln_def)
  then have "0 < length ln" by simp
  then show ?thesis using ne rest by simp
qed

lemma skip_line_le: "length (skip_line stream) \<le> length stream"
  by (simp add: skip_line_def) (metis diff_le_self le_trans length_dropWhile_le)

text \<open>
  The read loop of \<open>config_load\<close>. A line that filled the buffer without reaching its
  newline is discarded up to the next newline and counted as an error; any other line
  loses its line terminator, is trimmed and parsed. The loop ends when \<open>fgets\<close> returns
  nothing.
\<close>

function config_load_loop ::
  "(string \<Rightarrow> int) \<Rightarrow> bool \<Rightarrow> string \<Rightarrow> kia_config \<Rightarrow> bool \<Rightarrow> kia_config \<times> bool" where
  "config_load_loop atoi err stream config has_error =
     (case fgets 1024 err stream of
        None \<Rightarrow> (config, has_error)
      | Some (line, rest, eof) \<Rightarrow>
          if cstr line \<noteq> [] \<and> last (cstr line) \<noteq> CHR 0x0A \<and> \<not> eof
          then config_load_loop atoi err (skip_line rest) config True
          else
            (case parse_config_line atoi
                    (Some (trim_whitespace
                             (takeWhile (\<lambda>c. c \<noteq> CHR 0x0D \<and> c \<noteq> CHR 0x0A) (cstr line))))
                    (Some config) of
               (rc, Some config') \<Rightarrow>
                 config_load_loop atoi err rest config' (has_error \<or> rc \<noteq> KIA_SUCCESS)
             | (rc, None) \<Rightarrow> config_load_loop atoi err rest config True))"
  by pat_completeness auto
termination
  by (relation "measure (\<lambda>(atoi, err, stream, config, has_error). length stream)")
     (auto dest: fgets_shorter intro: le_less_trans[OF skip_line_le])

declare config_load_loop.simps [simp del]

text \<open>
  \<open>config_load\<close>: \<open>fopen\<close> maps a path to the open file (its bytes and its read-error
  flag), \<open>None\<close> when the file cannot be opened. Every exit of the loop has tried to
  read past the delivered bytes, so \<open>ferror\<close> after the loop is the read-error flag. The
  result is the return code and the configuration left behind the pointer (\<open>None\<close> for a
  null pointer).
\<close>

definition config_load ::
  "(string \<Rightarrow> int) \<Rightarrow> (string \<Rightarrow> (string \<times> bool) option) \<Rightarrow> string option
   \<Rightarrow> kia_config option \<Rightarrow> int \<times> kia_config option" where
  "config_load atoi fopen path config =
     (case config of
        None \<Rightarrow> (KIA_ERROR_CONFIG, None)
      | Some c0 \<Rightarrow>
          (case path of
             None \<Rightarrow> (KIA_ERROR_CONFIG, Some (config_set_defaults c0))
           | Some p \<Rightarrow>
               if p = [] then (KIA_ERROR_CONFIG, Some (config_set_defaults c0))
               else
                 (case fopen p of
                    None \<Rightarrow> (KIA_SUCCESS, Some (config_set_defaults c0))
                  | Some (content, read_error) \<Rightarrow>
                      (case config_load_loop atoi read_error content
                              (config_set_defaults c0) False of
                         (c, has_error) \<Rightarrow>
                           if config_validate (Some c) \<noteq> KIA_SUCCESS
                           then (KIA_ERROR_CONFIG, Some (config_set_defaults c))
                           else (if has_error \<or> read_error
                                 then KIA_ERROR_CONFIG else KIA_SUCCESS,
                                 Some c)))))"

section \<open>Session launcher (include/session.h, src/session.c)\<close>

datatype session_type_t = SESSION_X11 | SESSION_WAYLAND

record session_info =
  sess_name :: string
  sess_exec :: string
  sess_type :: session_type_t

text \<open>The account record \<open>getpwnam\<close> returns; a null \<open>pw_dir\<close> or \<open>pw_shell\<close> is \<open>None\<close>.\<close>

record passwd =
  pw_dir :: "string option"
  pw_shell :: "string option"
  pw_uid :: nat
  pw_gid :: nat

text \<open>
  The child process as the kernel sees it: its four identities, its environment and its
  working directory. \<open>getuid\<close>, \<open>geteuid\<close>, \<open>getgid\<close> and \<open>getegid\<close> read the fields.
\<close>

record process =
  ruid :: nat
  euid :: nat
  rgid :: nat
  egid :: nat
  environ :: "string \<Rightarrow> string option"
  cwd :: string

text \<open>
  The system calls of the child are parameters: each returns its status and the process
  it leaves behind, and nothing is assumed about them. In particular \<open>setgid\<close> and
  \<open>setuid\<close> may report success without changing any identity, which is the failure the
  verification step exists for. \<open>sys_execlp\<close> tells whether the program image could be
  replaced; if so the call does not return.
\<close>

record kernel =
  sys_setenv :: "string \<Rightarrow> string \<Rightarrow> process \<Rightarrow> int \<times> process"
  sys_chdir :: "string \<Rightarrow> process \<Rightarrow> int \<times> process"
  sys_setgid :: "nat \<Rightarrow> process \<Rightarrow> int \<times> process"
  sys_setuid :: "nat \<Rightarrow> process \<Rightarrow> int \<times> process"
  sys_execlp :: "string \<Rightarrow> string list \<Rightarrow> process \<Rightarrow> bool"

definition EXIT_FAILURE :: int where "EXIT_FAILURE = 1"

text \<open>
  How the child ends: it calls \<open>exit\<close> with a status, or it becomes the program named
  in a successful \<open>execlp\<close>, with the identities it holds at that moment.
\<close>

datatype child_end = Exited int | Executed string "string list" process

text \<open>A step that aborts the child on a nonzero status, and sequencing of such steps.\<close>

definition checked :: "int \<times> process \<Rightarrow> child_end + process" where
  "checked r = (if fst r \<noteq> 0 then Inl (Exited EXIT_FAILURE) else Inr (snd r))"

definition and_then ::
  "child_end + process \<Rightarrow> (process \<Rightarrow> child_end + process) \<Rightarrow> child_end + process" where
  "and_then m f = (case m of Inl e \<Rightarrow> Inl e | Inr p \<Rightarrow> f p)"

text \<open>
  The child of \<open>session_start\<close> up to and including the privilege drop (session.c
  lines 288-338): environment, working directory, \<open>setgid\<close>, then \<open>setuid\<close>.
  \<open>dir\<close> and \<open>shell\<close> are the home directory and the shell after the parent's checks.
\<close>

definition child_drop_privileges ::
  "kernel \<Rightarrow> string \<Rightarrow> string \<Rightarrow> passwd \<Rightarrow> session_info \<Rightarrow> string \<Rightarrow> process
   \<Rightarrow> child_end + process" where
  "child_drop_privileges k dir shell pw session user p0 =
     and_then (and_then (and_then (and_then (and_then (and_then (and_then (and_then (and_then
       (checked (sys_setenv k ''HOME'' dir p0))
       (\<lambda>p. checked (sys_setenv k ''USER'' user p)))
       (\<lambda>p. checked (sys_setenv k ''LOGNAME'' user p)))
       (\<lambda>p. checked (sys_setenv k ''SHELL'' shell p)))
       (\<lambda>p. checked (sys_setenv k ''XDG_SESSION_TYPE''
                        (if sess_type session = SESSION_X11 then ''x11'' else ''wayland'') p)))
       (\<lambda>p. if sess_type session = SESSION_X11
            then checked (sys_setenv k ''DISPLAY'' '':0'' p)
            else checked (sys_setenv k ''WAYLAND_DISPLAY'' ''wayland-0'' p)))
       (\<lambda>p. checked (sys_chdir k dir p)))
       (\<lambda>p. checked (sys_setgid k (pw_gid pw) p)))
       (\<lambda>p. checked (sys_setuid k (pw_uid pw) p)))
       Inr"

text \<open>The verification of session.c lines 340-346.\<close>

definition verify_privileges :: "passwd \<Rightarrow> process \<Rightarrow> child_end + process" where
  "verify_privileges pw p =
     (if ruid p \<noteq> pw_uid pw \<or> euid p \<noteq> pw_uid pw \<or>
         rgid p \<noteq> pw_gid pw \<or> egid p \<noteq> pw_gid pw
      then Inl (Exited EXIT_FAILURE)
      else Inr p)"

text \<open>The execute step of session.c lines 348-361.\<close>

definition execute_session :: "kernel \<Rightarrow> session_info \<Rightarrow> process \<Rightarrow> child_end" where
  "execute_session k session p =
     (if sess_type session = SESSION_X11
      then if sys_execlp k ''startx'' [''startx'', sess_exec session] p
           then Executed ''startx'' [''startx'', sess_exec session] p
           else if sys_execlp k ''/bin/sh'' [''sh'', ''-c'', sess_exec session] p
           then Executed ''/bin/sh'' [''sh'', ''-c'', sess_exec session] p
           else Exited EXIT_FAILURE
      else if sys_execlp k ''/bin/sh'' [''sh'', ''-c'', sess_exec session] p
           then Executed ''/bin/sh'' [''sh'', ''-c'', sess_exec session] p
           else Exited EXIT_FAILURE)"

text \<open>The whole child branch (\<open>pid == 0\<close>) of \<open>session_start\<close>.\<close>

definition session_child ::
  "kernel \<Rightarrow> string \<Rightarrow> string \<Rightarrow> passwd \<Rightarrow> session_info \<Rightarrow> string \<Rightarrow> process \<Rightarrow> child_end" where
  "session_child k dir shell pw session user p0 =
     (case and_then (child_drop_privileges k dir shell pw session user p0)
                    (verify_privileges pw) of
        Inl e \<Rightarrow> e
      | Inr p \<Rightarrow> execute_session k session p)"

text \<open>
  What \<open>waitpid\<close> reports to the parent. A child that called \<open>exit\<close> reports that
  status; a child that became the session reports whatever the session does, which is
  the parameter \<open>run\<close>.
\<close>

datatype wait_status = WaitFailed | WExited int | WSignaled int | WOther

definition child_status ::
  "(string \<Rightarrow> string list \<Rightarrow> process \<Rightarrow> wait_status) \<Rightarrow> child_end \<Rightarrow> wait_status" where
  "child_status run e =
     (case e of Exited c \<Rightarrow> WExited c | Executed f args p \<Rightarrow> run f args p)"

text \<open>
  \<open>session_start\<close>: \<open>getpwnam\<close> is the account database, \<open>fork_ok\<close> tells whether
  \<open>fork\<close> created a child, \<open>p0\<close> is the child as forked.
\<close>

definition session_start ::
  "kernel \<Rightarrow> (string \<Rightarrow> passwd option) \<Rightarrow> bool \<Rightarrow>
   (string \<Rightarrow> string list \<Rightarrow> process \<Rightarrow> wait_status) \<Rightarrow> process \<Rightarrow>
   session_info option \<Rightarrow> string option \<Rightarrow> int" where
  "session_start k getpwnam fork_ok run p0 session user =
     (case (session, user) of
        (Some sess, Some u) \<Rightarrow>
          if u = [] then KIA_ERROR_SESSION
          else if sess_name sess = [] \<or> sess_exec sess = [] then KIA_ERROR_SESSION
          else
            (case getpwnam u of
               None \<Rightarrow> KIA_ERROR_SESSION
             | Some pw \<Rightarrow>
                 if pw_dir pw = None \<or> pw_dir pw = Some [] then KIA_ERROR_SESSION
                 else
                   let dir = (case pw_dir pw of Some d \<Rightarrow> d | None \<Rightarrow> []);
                       shell = (case pw_shell pw of
                                  None \<Rightarrow> ''/bin/sh''
                                | Some sh \<Rightarrow> if sh = [] then ''/bin/sh'' else sh)
                   in if \<not> fork_ok then KIA_ERROR_SESSION
                      else
                        (case child_status run (session_child k dir shell pw sess u p0) of
                           WaitFailed \<Rightarrow> KIA_ERROR_SESSION
                         | WExited c \<Rightarrow> if c \<noteq> 0 then KIA_ERROR_SESSION else KIA_SUCCESS
                         | WSignaled sig \<Rightarrow> KIA_ERROR_SESSION
                         | WOther \<Rightarrow> KIA_SUCCESS))
      | _ \<Rightarrow> KIA_ERROR_SESSION)"

section \<open>Controller (include/controller.h, src/controller.c)\<close>

datatype app_state_t =
  STATE_INIT | STATE_LOAD_CONFIG | STATE_CHECK_AUTOLOGIN | STATE_SHOW_LOGIN
  | STATE_GET_CREDENTIALS | STATE_SELECT_SESSION | STATE_AUTHENTICATE
  | STATE_START_SESSION | STATE_EXIT

text \<open>
  The run context. \<open>ctx_username\<close> and \<open>ctx_password\<close> are the two 256-byte buffers,
  byte by byte; \<open>cstr\<close> reads such a buffer as a C string.
\<close>

record app_context =
  ctx_state :: app_state_t
  ctx_config :: kia_config
  ctx_auth_state :: auth_state
  ctx_sessions :: "session_info list"
  ctx_username :: string
  ctx_password :: string
  ctx_selected_session :: int
  ctx_running :: bool

text \<open>\<open>secure_memzero\<close> and \<open>memset(buf, 0, len)\<close>: the first \<open>len\<close> bytes become NUL.\<close>

definition secure_memzero :: "string \<Rightarrow> nat \<Rightarrow> string" where
  "secure_memzero buf len = replicate (min len (length buf)) (CHR 0x00) @ drop len buf"

text \<open>
  \<open>handle_get_credentials\<close>: the TUI collaborator is a parameter; given the two buffers
  it returns its status and what it left in them. Banners and log lines are not
  modelled.
\<close>

definition handle_get_credentials ::
  "(string \<Rightarrow> string \<Rightarrow> int \<times> string \<times> string) \<Rightarrow> app_context \<Rightarrow> int \<times> app_context" where
  "handle_get_credentials tui_get_credentials ctx =
     (case tui_get_credentials (ctx_username ctx) (ctx_password ctx) of
        (result, ubuf, pbuf) \<Rightarrow>
          let ctx1 = ctx\<lparr>ctx_username := ubuf, ctx_password := pbuf\<rparr>
          in if result \<noteq> KIA_SUCCESS
             then (result, ctx1\<lparr>ctx_state := STATE_SHOW_LOGIN\<rparr>)
             else if cstr (ctx_username ctx1) = []
             then (KIA_SUCCESS, ctx1\<lparr>ctx_state := STATE_SHOW_LOGIN\<rparr>)
             else if length (cstr (ctx_username ctx1)) > 255
             then (KIA_SUCCESS,
                   ctx1\<lparr>ctx_username := secure_memzero (ctx_username ctx1) 256,
                        ctx_password := secure_memzero (ctx_password ctx1) 256,
                        ctx_state := STATE_SHOW_LOGIN\<rparr>)
             else if cstr (ctx_password ctx1) = []
             then (KIA_SUCCESS, ctx1\<lparr>ctx_state := STATE_SHOW_LOGIN\<rparr>)
             else (KIA_SUCCESS, ctx1\<lparr>ctx_state := STATE_SELECT_SESSION\<rparr>))"

text \<open>
  \<open>handle_authenticate\<close>: \<open>t0\<close> is the clock reading of the controller's own lock-out
  check, \<open>t_check\<close> and \<open>t_fail\<close> those of \<open>auth_authenticate\<close>. The authentication
  state is a field of the context, so the pointer handed to the authenticator is never
  null. The result carries the events of the authenticator call.
\<close>

definition handle_authenticate ::
  "pam_provider \<Rightarrow> int \<Rightarrow> int \<Rightarrow> int \<Rightarrow> app_context \<Rightarrow> int \<times> app_context \<times> auth_event list" where
  "handle_authenticate pam t0 t_check t_fail ctx =
     (case auth_is_locked_out t0 (Some (ctx_auth_state ctx)) of
        (locked, st0) \<Rightarrow>
          let ctx0 = ctx\<lparr>ctx_auth_state := (case st0 of Some s \<Rightarrow> s | None \<Rightarrow> ctx_auth_state ctx)\<rparr>
          in if locked
             then (KIA_SUCCESS,
                   ctx0\<lparr>ctx_password := secure_memzero (ctx_password ctx0) 256,
                        ctx_state := STATE_SHOW_LOGIN\<rparr>, [])
             else
               (case auth_authenticate pam t_check t_fail
                       (Some (cstr (ctx_username ctx0))) (Some (cstr (ctx_password ctx0)))
                       (Some (ctx_config ctx0)) (Some (ctx_auth_state ctx0)) of
                  (result, st1, events) \<Rightarrow>
                    let ctx1 = ctx0\<lparr>ctx_auth_state :=
                                      (case st1 of Some s \<Rightarrow> s | None \<Rightarrow> ctx_auth_state ctx0),
                                    ctx_password := secure_memzero (ctx_password ctx0) 256\<rparr>
                    in if result = KIA_SUCCESS
                       then (KIA_SUCCESS,
                             ctx1\<lparr>ctx_auth_state :=
                                    (case auth_reset_attempts (Some (ctx_auth_state ctx1)) of
                                       Some s \<Rightarrow> s | None \<Rightarrow> ctx_auth_state ctx1),
                                  ctx_state := STATE_START_SESSION\<rparr>, events)
                       else (KIA_SUCCESS, ctx1\<lparr>ctx_state := STATE_SHOW_LOGIN\<rparr>, events)))"

section \<open>Reachable authentication states\<close>

text \<open>
  The states the authenticator can be in during a run with configuration \<open>cfg\<close>:
  \<open>controller_init\<close> zeroes the state, and afterwards only \<open>auth_authenticate\<close>,
  \<open>auth_is_locked_out\<close> and \<open>auth_reset_attempts\<close> touch it, with any arguments and any
  provider. The clock counts seconds since the epoch, so every reading is positive.
\<close>

inductive reachable :: "kia_config \<Rightarrow> auth_state \<Rightarrow> bool" for cfg :: kia_config where
  reach_init: "reachable cfg \<lparr>username = [], failed_attempts = 0, lockout_until = 0\<rparr>"
| reach_authenticate:
    "reachable cfg s \<Longrightarrow> 0 < t_check \<Longrightarrow> 0 < t_fail \<Longrightarrow>
     auth_authenticate pam t_check t_fail user password (Some cfg) (Some s) = (rc, Some s', ev)
     \<Longrightarrow> reachable cfg s'"
| reach_is_locked_out:
    "reachable cfg s \<Longrightarrow> 0 < now \<Longrightarrow> auth_is_locked_out now (Some s) = (b, Some s')
     \<Longrightarrow> reachable cfg s'"
| reach_reset:
    "reachable cfg s \<Longrightarrow> auth_reset_attempts (Some s) = Some s' \<Longrightarrow> reachable cfg s'"

text \<open>
  The inductive invariant behind the bound on the counter: the counter is below the
  threshold exactly while no lock-out is set.
\<close>

definition auth_inv :: "kia_config \<Rightarrow> auth_state \<Rightarrow> bool" where
  "auth_inv cfg s \<longleftrightarrow>
     0 \<le> failed_attempts s \<and> failed_attempts s \<le> max_attempts cfg \<and>
     (lockout_until s = 0 \<longrightarrow> failed_attempts s < max_attempts cfg) \<and>
     (lockout_until s \<noteq> 0 \<longrightarrow>
        failed_attempts s = max_attempts cfg \<and> lockout_duration cfg < lockout_until s)"

section \<open>Concrete inputs\<close>

definition INT_MAX :: int where "INT_MAX = 2147483647"

definition zero_state :: auth_state where
  "zero_state = \<lparr>username = [], failed_attempts = 0, lockout_until = 0\<rparr>"

definition config_3_60 :: kia_config where
  "config_3_60 =
     \<lparr>autologin_user = [], autologin_enabled = False, default_session = ''xfce'',
      max_attempts = 3, enable_logs = True, lockout_duration = 60\<rparr>"

text \<open>Providers: one that rejects every secret (\<open>PAM_AUTH_ERR\<close> is 7), one that accepts
  everything, one whose accounts have all expired (\<open>PAM_ACCT_EXPIRED\<close> is 13).\<close>

definition pam_reject_all :: pam_provider where
  "pam_reject_all =
     \<lparr>pam_start = (\<lambda>u. 0), pam_authenticate = (\<lambda>u p. 7), pam_acct_mgmt = (\<lambda>u. 0)\<rparr>"

definition pam_accept_all :: pam_provider where
  "pam_accept_all =
     \<lparr>pam_start = (\<lambda>u. 0), pam_authenticate = (\<lambda>u p. 0), pam_acct_mgmt = (\<lambda>u. 0)\<rparr>"

definition pam_expired_account :: pam_provider where
  "pam_expired_account =
     \<lparr>pam_start = (\<lambda>u. 0), pam_authenticate = (\<lambda>u p. 0), pam_acct_mgmt = (\<lambda>u. 13)\<rparr>"

definition locked_state :: auth_state where
  "locked_state = \<lparr>username = ''bob'', failed_attempts = 3, lockout_until = 1062\<rparr>"

definition default_config :: kia_config where
  "default_config =
     \<lparr>autologin_user = [], autologin_enabled = False, default_session = ''xfce'',
      max_attempts = 3, enable_logs = True, lockout_duration = 60\<rparr>"

text \<open>
  A text file is the concatenation of its lines, each closed by a newline. A line of text
  has no newline and no NUL byte inside and fits the 1024-byte read buffer together with
  its newline.
\<close>

definition file_of_lines :: "string list \<Rightarrow> string" where
  "file_of_lines ls = concat (map (\<lambda>l. l @ [CHR 0x0A]) ls)"

definition text_line :: "string \<Rightarrow> bool" where
  "text_line l \<longleftrightarrow> CHR 0x0A \<notin> set l \<and> CHR 0x00 \<notin> set l \<and> length l < 1023"

text \<open>What the read loop hands to the parser for a line, and what one line does to the
  configuration and the error flag of the loop.\<close>

definition strip_line :: "string \<Rightarrow> string" where
  "strip_line l = trim_whitespace (takeWhile (\<lambda>c. c \<noteq> CHR 0x0D \<and> c \<noteq> CHR 0x0A) l)"

definition accept_line ::
  "(string \<Rightarrow> int) \<Rightarrow> kia_config \<times> bool \<Rightarrow> string \<Rightarrow> kia_config \<times> bool" where
  "accept_line atoi acc l =
     (case parse_config_line atoi (Some (strip_line l)) (Some (fst acc)) of
        (rc, Some c') \<Rightarrow> (c', snd acc \<or> rc \<noteq> KIA_SUCCESS)
      | (rc, None) \<Rightarrow> (fst acc, True))"

definition in_range :: "kia_config \<Rightarrow> bool" where
  "in_range c \<longleftrightarrow> 1 \<le> max_attempts c \<and> max_attempts c \<le> 10 \<and>
                 0 \<le> lockout_duration c \<and> lockout_duration c \<le> 3600"










text \<open>
  Two kernels. The honest one performs every call. The other one reports success from
  \<open>setuid\<close> and changes nothing: a silent failure of the privilege drop.
\<close>

definition honest_kernel :: kernel where
  "honest_kernel =
     \<lparr>sys_setenv = (\<lambda>n v p. (0, p\<lparr>environ := (environ p)(n \<mapsto> v)\<rparr>)),
      sys_chdir = (\<lambda>d p. (0, p\<lparr>cwd := d\<rparr>)),
      sys_setgid = (\<lambda>g p. (0, p\<lparr>rgid := g, egid := g\<rparr>)),
      sys_setuid = (\<lambda>u p. (0, p\<lparr>ruid := u, euid := u\<rparr>)),
      sys_execlp = (\<lambda>f args p. True)\<rparr>"

definition silent_setuid_kernel :: kernel where
  "silent_setuid_kernel = honest_kernel\<lparr>sys_setuid := (\<lambda>u p. (0, p))\<rparr>"

definition root_process :: process where
  "root_process =
     \<lparr>ruid = 0, euid = 0, rgid = 0, egid = 0, environ = Map.empty, cwd = ''/''\<rparr>"

definition alice :: passwd where
  "alice = \<lparr>pw_dir = Some ''/home/alice'', pw_shell = Some ''/bin/bash'',
            pw_uid = 1000, pw_gid = 1000\<rparr>"

definition xfce_session :: session_info where
  "xfce_session =
     \<lparr>sess_name = ''Xfce'', sess_exec = ''startxfce4'', sess_type = SESSION_X11\<rparr>"

definition alice_process :: process where
  "alice_process =
     \<lparr>ruid = 1000, euid = 1000, rgid = 1000, egid = 1000,
      environ = [''HOME'' \<mapsto> ''/home/alice'', ''USER'' \<mapsto> ''alice'',
                 ''LOGNAME'' \<mapsto> ''alice'', ''SHELL'' \<mapsto> ''/bin/bash'',
                 ''XDG_SESSION_TYPE'' \<mapsto> ''x11'', ''DISPLAY'' \<mapsto> '':0''],
      cwd = ''/home/alice''\<rparr>"

definition half_dropped_process :: process where
  "half_dropped_process =
     \<lparr>ruid = 0, euid = 0, rgid = 1000, egid = 1000,
      environ = [''HOME'' \<mapsto> ''/home/alice'', ''USER'' \<mapsto> ''alice'',
                 ''LOGNAME'' \<mapsto> ''alice'', ''SHELL'' \<mapsto> ''/bin/bash'',
                 ''XDG_SESSION_TYPE'' \<mapsto> ''x11'', ''DISPLAY'' \<mapsto> '':0''],
      cwd = ''/home/alice''\<rparr>"

text \<open>Credential buffers of 256 bytes, a run context waiting for credentials, and two
  behaviours of the TUI collaborator.\<close>

definition zero_buffer :: string where
  "zero_buffer = replicate 256 (CHR 0x00)"

definition secret_buffer :: string where
  "secret_buffer = ''secret'' @ replicate 250 (CHR 0x00)"

definition partial_secret_buffer :: string where
  "partial_secret_buffer = ''secr'' @ replicate 252 (CHR 0x00)"

definition bob_buffer :: string where
  "bob_buffer = ''bob'' @ replicate 253 (CHR 0x00)"

definition login_context :: app_context where
  "login_context =
     \<lparr>ctx_state = STATE_GET_CREDENTIALS, ctx_config = config_3_60,
      ctx_auth_state = zero_state, ctx_sessions = [xfce_session],
      ctx_username = zero_buffer, ctx_password = zero_buffer,
      ctx_selected_session = -1, ctx_running = True\<rparr>"

definition tui_empty_username :: "string \<Rightarrow> string \<Rightarrow> int \<times> string \<times> string" where
  "tui_empty_username ubuf pbuf = (KIA_SUCCESS, zero_buffer, secret_buffer)"

definition tui_read_failure :: "string \<Rightarrow> string \<Rightarrow> int \<times> string \<times> string" where
  "tui_read_failure ubuf pbuf = (KIA_ERROR_SYSTEM, bob_buffer, partial_secret_buffer)"

section \<open>Authenticator: lock-out\<close>

lemmas auth_defs =
  auth_authenticate_def auth_is_locked_out_def auth_reset_attempts_def
  record_failure_def PAM_SUCCESS_def

text \<open>
  C2. While \<open>lockout_until\<close> is set and lies in the future of the clock reading,
  \<open>auth_authenticate\<close> returns \<open>KIA_ERROR_AUTH\<close> (Rejected) and performs no event at
  all, so the identity provider is never contacted. This holds for every identity and
  every secret, present or null, and for every provider, one that would accept the
  secret included.
\<close>

theorem auth_lockout_rejects_without_provider:
  assumes "lockout_until s \<noteq> 0" and "t_check < lockout_until s"
  shows "fst (auth_authenticate pam t_check t_fail user password config (Some s))
           = KIA_ERROR_AUTH \<and>
         snd (snd (auth_authenticate pam t_check t_fail user password config (Some s))) = []"
  using assms by (simp add: auth_defs split: option.splits)

theorem auth_lockout_rejects_without_provider_witness:
  "lockout_until locked_state \<noteq> 0 \<and> 1010 < lockout_until locked_state \<and>
   fst (auth_authenticate pam_accept_all 1010 1010 (Some ''bob'') (Some ''correct'')
          (Some config_3_60) (Some locked_state)) = KIA_ERROR_AUTH \<and>
   snd (snd (auth_authenticate pam_accept_all 1010 1010 (Some ''bob'') (Some ''correct'')
          (Some config_3_60) (Some locked_state))) = []"
proof -
  have h1: "lockout_until locked_state \<noteq> 0" by (simp add: locked_state_def)
  have h2: "1010 < lockout_until locked_state" by (simp add: locked_state_def)
  show ?thesis
    using h1 h2 auth_lockout_rejects_without_provider[OF h1 h2] by simp
qed

text \<open>
  C10. During an active lock-out the call leaves the whole authentication state as it
  was, whatever identity is requested, the tracked one or another: the lock-out check
  comes before the identity switch, so neither \<open>failed_attempts\<close> nor the tracked
  identity changes, and the attempt is rejected.
\<close>

theorem auth_lockout_state_unchanged:
  assumes "lockout_until s \<noteq> 0" and "t_check < lockout_until s"
  shows "auth_authenticate pam t_check t_fail (Some u) password config (Some s)
         = (KIA_ERROR_AUTH, Some s, [])"
  using assms by (simp add: auth_defs split: option.splits)

theorem auth_lockout_state_unchanged_witness:
  "lockout_until locked_state \<noteq> 0 \<and> 1010 < lockout_until locked_state \<and>
   ''mallory'' \<noteq> username locked_state \<and>
   auth_authenticate pam_accept_all 1010 1010 (Some ''mallory'') (Some ''x'')
      (Some config_3_60) (Some locked_state) = (KIA_ERROR_AUTH, Some locked_state, [])"
proof -
  have h1: "lockout_until locked_state \<noteq> 0" by (simp add: locked_state_def)
  have h2: "1010 < lockout_until locked_state" by (simp add: locked_state_def)
  have h3: "''mallory'' \<noteq> username locked_state" by (simp add: locked_state_def)
  show ?thesis
    using h1 h2 h3 auth_lockout_state_unchanged[OF h1 h2] by simp
qed

text \<open>
  C5. \<open>auth_is_locked_out\<close> answers true exactly when \<open>lockout_until\<close> is nonzero and
  later than the clock reading. When \<open>lockout_until\<close> is nonzero and the clock has
  reached it, the call answers false and leaves \<open>lockout_until\<close> and
  \<open>failed_attempts\<close> at 0; otherwise the state is untouched. A null state is never
  locked out.
\<close>

theorem auth_is_locked_out_spec:
  "auth_is_locked_out now None = (False, None) \<and>
   fst (auth_is_locked_out now (Some s)) = (lockout_until s \<noteq> 0 \<and> now < lockout_until s) \<and>
   snd (auth_is_locked_out now (Some s)) =
     Some (if lockout_until s \<noteq> 0 \<and> lockout_until s \<le> now
           then s\<lparr>lockout_until := 0, failed_attempts := 0\<rparr> else s)"
proof -
  have null: "auth_is_locked_out now None = (False, None)"
    by (simp add: auth_is_locked_out_def)
  consider (unset) "lockout_until s = 0"
    | (expired) "lockout_until s \<noteq> 0" "lockout_until s \<le> now"
    | (active) "lockout_until s \<noteq> 0" "now < lockout_until s"
    by linarith
  then have "auth_is_locked_out now (Some s) =
     (lockout_until s \<noteq> 0 \<and> now < lockout_until s,
      Some (if lockout_until s \<noteq> 0 \<and> lockout_until s \<le> now
            then s\<lparr>lockout_until := 0, failed_attempts := 0\<rparr> else s))"
  proof cases
    case unset
    then show ?thesis by (simp add: auth_is_locked_out_def)
  next
    case expired
    then show ?thesis by (simp add: auth_is_locked_out_def)
  next
    case active
    then show ?thesis by (simp add: auth_is_locked_out_def)
  qed
  with null show ?thesis by simp
qed

theorem auth_is_locked_out_spec_witness:
  "auth_is_locked_out 1062 (Some locked_state)
     = (False, Some \<lparr>username = ''bob'', failed_attempts = 0, lockout_until = 0\<rparr>) \<and>
   auth_is_locked_out 1061 (Some locked_state) = (True, Some locked_state)"
proof -
  have a: "auth_is_locked_out 1062 (Some locked_state)
     = (False, Some \<lparr>username = ''bob'', failed_attempts = 0, lockout_until = 0\<rparr>)"
    using auth_is_locked_out_spec[of 1062 locked_state]
    by (simp add: locked_state_def prod_eq_iff)
  have b: "auth_is_locked_out 1061 (Some locked_state) = (True, Some locked_state)"
    using auth_is_locked_out_spec[of 1061 locked_state]
    by (simp add: locked_state_def prod_eq_iff)
  from a b show ?thesis by simp
qed

section \<open>Authenticator: counting rejections\<close>

text \<open>
  C3. From a state that is not locked out, a provider rejection, be it of the
  credentials or of the account, makes \<open>auth_authenticate\<close> return \<open>KIA_ERROR_AUTH\<close>
  with \<open>failed_attempts\<close> one above the counter this attempt is evaluated against: the
  stored counter, or 0 when the call first cleared it (an expired lock-out, or a switch
  of identity). If the new counter equals \<open>max_attempts\<close>, \<open>lockout_until\<close> is the
  clock reading of that moment plus \<open>lockout_duration\<close>. The provider session must have
  been opened (\<open>pam_start\<close>), and the counter must be below \<open>INT_MAX\<close>.
\<close>

theorem auth_rejection_counts_and_locks:
  assumes "lockout_until s = 0 \<or> lockout_until s \<le> t_check"
    and "pam_start pam u = PAM_SUCCESS"
    and "pam_authenticate pam u pw \<noteq> PAM_SUCCESS \<or> pam_acct_mgmt pam u \<noteq> PAM_SUCCESS"
    and "failed_attempts s < INT_MAX"
  shows "\<exists>s' ev.
           auth_authenticate pam t_check t_fail (Some u) (Some pw) (Some cfg) (Some s)
             = (KIA_ERROR_AUTH, Some s', ev) \<and>
           failed_attempts s' =
             (if username s \<noteq> u \<or> lockout_until s \<noteq> 0 then 0 else failed_attempts s) + 1 \<and>
           (failed_attempts s' = max_attempts cfg \<longrightarrow>
              lockout_until s' = t_fail + lockout_duration cfg)"
  using assms
  by (auto simp: auth_defs Let_def)

theorem auth_rejection_counts_and_locks_witness:
  "fst (auth_authenticate pam_reject_all 1002 1002 (Some ''bob'') (Some ''wrong'')
          (Some config_3_60)
          (Some \<lparr>username = ''bob'', failed_attempts = 2, lockout_until = 0\<rparr>))
     = KIA_ERROR_AUTH \<and>
   fst (snd (auth_authenticate pam_reject_all 1002 1002 (Some ''bob'') (Some ''wrong'')
          (Some config_3_60)
          (Some \<lparr>username = ''bob'', failed_attempts = 2, lockout_until = 0\<rparr>)))
     = Some \<lparr>username = ''bob'', failed_attempts = 3, lockout_until = 1062\<rparr> \<and>
   fst (auth_authenticate pam_expired_account 1000 1000 (Some ''bob'') (Some ''right'')
          (Some config_3_60)
          (Some \<lparr>username = ''bob'', failed_attempts = 0, lockout_until = 0\<rparr>))
     = KIA_ERROR_AUTH \<and>
   fst (snd (auth_authenticate pam_expired_account 1000 1000 (Some ''bob'') (Some ''right'')
          (Some config_3_60)
          (Some \<lparr>username = ''bob'', failed_attempts = 0, lockout_until = 0\<rparr>)))
     = Some \<lparr>username = ''bob'', failed_attempts = 1, lockout_until = 0\<rparr>"
proof -
  let ?s = "\<lparr>username = ''bob'', failed_attempts = 2, lockout_until = 0\<rparr>"
  let ?r = "auth_authenticate pam_reject_all 1002 1002 (Some ''bob'') (Some ''wrong'')
              (Some config_3_60) (Some ?s)"
  have h1: "lockout_until ?s = 0 \<or> lockout_until ?s \<le> 1002" by simp
  have h2: "pam_start pam_reject_all ''bob'' = PAM_SUCCESS"
    by (simp add: pam_reject_all_def PAM_SUCCESS_def)
  have h3: "pam_authenticate pam_reject_all ''bob'' ''wrong'' \<noteq> PAM_SUCCESS
            \<or> pam_acct_mgmt pam_reject_all ''bob'' \<noteq> PAM_SUCCESS"
    by (simp add: pam_reject_all_def PAM_SUCCESS_def)
  have h4: "failed_attempts ?s < INT_MAX" by (simp add: INT_MAX_def)
  from auth_rejection_counts_and_locks[OF h1 h2 h3 h4, of 1002 config_3_60]
  obtain s' ev where
    r: "?r = (KIA_ERROR_AUTH, Some s', ev)"
    and c: "failed_attempts s' = 3"
    and l: "failed_attempts s' = max_attempts config_3_60 \<longrightarrow>
            lockout_until s' = 1002 + lockout_duration config_3_60"
    by auto
  from c l have "lockout_until s' = 1062" by (simp add: config_3_60_def)
  moreover from r have "username s' = ''bob''"
    by (auto simp: auth_defs Let_def pam_reject_all_def config_3_60_def split: if_splits)
  ultimately have s': "s' = \<lparr>username = ''bob'', failed_attempts = 3, lockout_until = 1062\<rparr>"
    using c by simp
  let ?t = "\<lparr>username = ''bob'', failed_attempts = 0, lockout_until = 0\<rparr>"
  let ?q = "auth_authenticate pam_expired_account 1000 1000 (Some ''bob'') (Some ''right'')
              (Some config_3_60) (Some ?t)"
  have g1: "lockout_until ?t = 0 \<or> lockout_until ?t \<le> 1000" by simp
  have g2: "pam_start pam_expired_account ''bob'' = PAM_SUCCESS"
    by (simp add: pam_expired_account_def PAM_SUCCESS_def)
  have g3: "pam_authenticate pam_expired_account ''bob'' ''right'' \<noteq> PAM_SUCCESS
            \<or> pam_acct_mgmt pam_expired_account ''bob'' \<noteq> PAM_SUCCESS"
    by (simp add: pam_expired_account_def PAM_SUCCESS_def)
  have g4: "failed_attempts ?t < INT_MAX" by (simp add: INT_MAX_def)
  from auth_rejection_counts_and_locks[OF g1 g2 g3 g4, of 1000 config_3_60]
  obtain t' ev' where
    q: "?q = (KIA_ERROR_AUTH, Some t', ev')"
    and c': "failed_attempts t' = 1"
    by auto
  from q have "username t' = ''bob''" and "lockout_until t' = 0"
    by (auto simp: auth_defs Let_def pam_expired_account_def config_3_60_def split: if_splits)
  then have t': "t' = \<lparr>username = ''bob'', failed_attempts = 1, lockout_until = 0\<rparr>"
    using c' by simp
  from r s' q t' show ?thesis by simp
qed

text \<open>
  C4. When the requested identity differs from the tracked one and no lock-out is
  active, the call ends tracking the requested identity (as the 256-byte field holds it:
  its first 255 characters) with the counter restarted from 0 before the attempt is
  evaluated: 1 after a rejection, 0 otherwise. From \<open>(userA, 2)\<close> one rejected attempt
  for \<open>userB\<close> gives \<open>(userB, 1)\<close>.
\<close>

theorem auth_identity_switch_resets:
  assumes "username s \<noteq> u" and "lockout_until s = 0 \<or> lockout_until s \<le> t_check"
  shows "\<exists>rc s' ev.
           auth_authenticate pam t_check t_fail (Some u) (Some pw) (Some cfg) (Some s)
             = (rc, Some s', ev) \<and>
           username s' = take 255 u \<and>
           failed_attempts s' = (if rc = KIA_ERROR_AUTH then 1 else 0)"
  using assms
  by (auto simp: auth_defs Let_def kia_codes)

theorem auth_identity_switch_resets_witness:
  "fst (auth_authenticate pam_reject_all 1000 1000 (Some ''userB'') (Some ''wrong'')
          (Some config_3_60)
          (Some \<lparr>username = ''userA'', failed_attempts = 2, lockout_until = 0\<rparr>))
     = KIA_ERROR_AUTH \<and>
   fst (snd (auth_authenticate pam_reject_all 1000 1000 (Some ''userB'') (Some ''wrong'')
          (Some config_3_60)
          (Some \<lparr>username = ''userA'', failed_attempts = 2, lockout_until = 0\<rparr>)))
     = Some \<lparr>username = ''userB'', failed_attempts = 1, lockout_until = 0\<rparr>"
proof -
  let ?s = "\<lparr>username = ''userA'', failed_attempts = 2, lockout_until = 0\<rparr>"
  let ?r = "auth_authenticate pam_reject_all 1000 1000 (Some ''userB'') (Some ''wrong'')
              (Some config_3_60) (Some ?s)"
  have h1: "username ?s \<noteq> ''userB''" by simp
  have h2: "lockout_until ?s = 0 \<or> lockout_until ?s \<le> 1000" by simp
  from auth_identity_switch_resets[OF h1 h2, of pam_reject_all 1000 "''wrong''" config_3_60]
  obtain rc s' ev where
    r: "?r = (rc, Some s', ev)"
    and u: "username s' = take 255 ''userB''"
    and c: "failed_attempts s' = (if rc = KIA_ERROR_AUTH then 1 else 0)"
    by auto
  have rc: "fst ?r = KIA_ERROR_AUTH"
    by (simp add: auth_defs Let_def pam_reject_all_def)
  have lu: "lockout_until s' = 0"
    using r by (auto simp: auth_defs Let_def pam_reject_all_def config_3_60_def)
  from r rc have "rc = KIA_ERROR_AUTH" by simp
  with u c lu have "s' = \<lparr>username = ''userB'', failed_attempts = 1, lockout_until = 0\<rparr>"
    by simp
  with r rc show ?thesis by simp
qed

section \<open>Authenticator: missing arguments\<close>

text \<open>
  C7, as the code has it. If any of the four arguments is a null pointer,
  \<open>auth_authenticate\<close> returns \<open>KIA_ERROR_AUTH\<close> at once: no event happens, so the
  provider is not contacted, and the state (tracked identity, \<open>failed_attempts\<close>,
  \<open>lockout_until\<close>) is what it was.
\<close>

theorem auth_null_argument_rejected:
  assumes "user = None \<or> password = None \<or> config = None \<or> state = None"
  shows "auth_authenticate pam t_check t_fail user password config state
         = (KIA_ERROR_AUTH, state, [])"
  using assms by (auto simp: auth_defs split: option.splits)

theorem auth_null_argument_rejected_witness:
  "auth_authenticate pam_accept_all 1000 1000 (Some ''testuser'') None (Some config_3_60)
     (Some zero_state) = (KIA_ERROR_AUTH, Some zero_state, [])"
proof -
  have h: "Some ''testuser'' = None \<or> (None :: string option) = None
           \<or> Some config_3_60 = None \<or> Some zero_state = None"
    by simp
  show ?thesis by (rule auth_null_argument_rejected[OF h])
qed

text \<open>
  C7, as stated, fails for an empty string: the guard tests the pointers only. With an
  empty identity, a secret, a configuration and the zeroed state, the call locks the
  terminal, opens a provider session, submits the secret, and on the provider's
  rejection counts a failed attempt.
\<close>

theorem auth_empty_string_reaches_provider:
  "auth_authenticate pam_reject_all 1000 1000 (Some []) (Some ''pw'') (Some config_3_60)
     (Some zero_state)
   = (KIA_ERROR_AUTH, Some \<lparr>username = [], failed_attempts = 1, lockout_until = 0\<rparr>,
      [TtyLock, PamStart [], PamAuthenticate ''pw'', PamEnd, TtyUnlock])"
  by (simp add: auth_defs Let_def zero_state_def pam_reject_all_def config_3_60_def)

section \<open>Authenticator: the invariant of a run\<close>

lemma valid_config_bounds:
  "config_validate (Some cfg) = KIA_SUCCESS \<Longrightarrow>
   1 \<le> max_attempts cfg \<and> max_attempts cfg \<le> 10 \<and> 0 \<le> lockout_duration cfg"
  by (simp add: config_validate_def kia_codes MIN_MAX_ATTEMPTS_def MAX_MAX_ATTEMPTS_def
      split: if_splits)

lemma inv_is_locked_out:
  "auth_inv cfg s \<Longrightarrow> 1 \<le> max_attempts cfg \<Longrightarrow>
   auth_is_locked_out now (Some s) = (b, Some s') \<Longrightarrow> auth_inv cfg s'"
  by (auto simp: auth_inv_def auth_is_locked_out_def split: if_splits)

lemma inv_reset:
  "auth_inv cfg s \<Longrightarrow> 1 \<le> max_attempts cfg \<Longrightarrow>
   auth_reset_attempts (Some s) = Some s' \<Longrightarrow> auth_inv cfg s'"
  by (auto simp: auth_inv_def auth_reset_attempts_def)

lemma inv_record_failure:
  assumes "auth_inv cfg s" "lockout_until s = 0" "1 \<le> max_attempts cfg"
    "0 \<le> lockout_duration cfg" "0 < now"
  shows "auth_inv cfg (record_failure now cfg s)"
  using assms by (auto simp: auth_inv_def record_failure_def Let_def)

lemma inv_authenticate:
  assumes "auth_inv cfg s" "1 \<le> max_attempts cfg" "0 \<le> lockout_duration cfg" "0 < t_fail"
    "auth_authenticate pam t_check t_fail user password (Some cfg) (Some s) = (rc, Some s', ev)"
  shows "auth_inv cfg s'"
  using assms
  apply (auto simp: auth_authenticate_def auth_is_locked_out_def auth_reset_attempts_def
      Let_def split: option.splits if_splits intro!: inv_record_failure)
  apply (auto simp: auth_inv_def)
  done

lemma reachable_inv:
  assumes "config_validate (Some cfg) = KIA_SUCCESS" and "reachable cfg s"
  shows "auth_inv cfg s"
  using assms(2)
proof (induction rule: reachable.induct)
  case reach_init
  then show ?case using valid_config_bounds[OF assms(1)] by (simp add: auth_inv_def)
next
  case (reach_authenticate s t_check t_fail pam user password rc s' ev)
  then show ?case using valid_config_bounds[OF assms(1)] inv_authenticate by blast
next
  case (reach_is_locked_out s now b s')
  then show ?case using valid_config_bounds[OF assms(1)] inv_is_locked_out by blast
next
  case (reach_reset s s')
  then show ?case using valid_config_bounds[OF assms(1)] inv_reset by blast
qed

lemma step_authenticate:
  assumes "auth_inv cfg s" "1 \<le> max_attempts cfg"
    "auth_authenticate pam t_check t_fail user password (Some cfg) (Some s) = (rc, Some s', ev)"
    "lockout_until s' \<noteq> 0"
  shows "s' = s \<or> (rc = KIA_ERROR_AUTH \<and> failed_attempts s' = max_attempts cfg \<and>
           lockout_until s' = t_fail + lockout_duration cfg)"
  using assms
  by (auto simp: auth_authenticate_def auth_is_locked_out_def auth_reset_attempts_def
        record_failure_def auth_inv_def Let_def split: option.splits if_splits)

lemma step_is_locked_out:
  assumes "auth_is_locked_out now (Some s) = (b, Some s')" "lockout_until s' \<noteq> 0"
  shows "s' = s"
  using assms by (auto simp: auth_is_locked_out_def split: if_splits)

lemma step_reset:
  assumes "auth_reset_attempts (Some s) = Some s'"
  shows "lockout_until s' = 0"
  using assms by (auto simp: auth_reset_attempts_def)

text \<open>
  C6. In every state reachable from the zeroed state under a validated configuration,
  \<open>0 \<le> failed_attempts \<le> max_attempts\<close>, and a nonzero \<open>lockout_until\<close> goes with a
  counter that stands at \<open>max_attempts\<close>. A nonzero \<open>lockout_until\<close> comes from nowhere
  else than a rejection that brought the counter to \<open>max_attempts\<close>: after any call of
  \<open>auth_authenticate\<close> from a reachable state, a nonzero \<open>lockout_until\<close> either was
  there before, with the state untouched, or was set by this rejected call to its clock
  reading plus \<open>lockout_duration\<close> with the counter at \<open>max_attempts\<close>;
  \<open>auth_is_locked_out\<close> only keeps or clears it, and \<open>auth_reset_attempts\<close> clears it.
  Clock readings are positive, as written in \<open>reachable\<close>.
\<close>

theorem auth_reachable_invariant:
  assumes "config_validate (Some cfg) = KIA_SUCCESS" and "reachable cfg s"
  shows "0 \<le> failed_attempts s \<and> failed_attempts s \<le> max_attempts cfg \<and>
         (lockout_until s \<noteq> 0 \<longrightarrow> failed_attempts s = max_attempts cfg) \<and>
         (\<forall>pam t_check t_fail user password rc s' ev.
            auth_authenticate pam t_check t_fail user password (Some cfg) (Some s)
              = (rc, Some s', ev) \<and> lockout_until s' \<noteq> 0 \<longrightarrow>
            s' = s \<or> (rc = KIA_ERROR_AUTH \<and> failed_attempts s' = max_attempts cfg \<and>
                      lockout_until s' = t_fail + lockout_duration cfg)) \<and>
         (\<forall>now b s'. auth_is_locked_out now (Some s) = (b, Some s') \<and> lockout_until s' \<noteq> 0
            \<longrightarrow> s' = s) \<and>
         (\<forall>s'. auth_reset_attempts (Some s) = Some s' \<longrightarrow> lockout_until s' = 0)"
proof -
  have inv: "auth_inv cfg s" by (rule reachable_inv[OF assms])
  have pos: "1 \<le> max_attempts cfg" using valid_config_bounds[OF assms(1)] by simp
  have a: "0 \<le> failed_attempts s \<and> failed_attempts s \<le> max_attempts cfg \<and>
         (lockout_until s \<noteq> 0 \<longrightarrow> failed_attempts s = max_attempts cfg)"
    using inv by (simp add: auth_inv_def)
  have b: "\<forall>pam t_check t_fail user password rc s' ev.
            auth_authenticate pam t_check t_fail user password (Some cfg) (Some s)
              = (rc, Some s', ev) \<and> lockout_until s' \<noteq> 0 \<longrightarrow>
            s' = s \<or> (rc = KIA_ERROR_AUTH \<and> failed_attempts s' = max_attempts cfg \<and>
                      lockout_until s' = t_fail + lockout_duration cfg)"
    using step_authenticate[OF inv pos] by blast
  have c: "\<forall>now b s'. auth_is_locked_out now (Some s) = (b, Some s') \<and> lockout_until s' \<noteq> 0
            \<longrightarrow> s' = s"
    using step_is_locked_out by blast
  have d: "\<forall>s'. auth_reset_attempts (Some s) = Some s' \<longrightarrow> lockout_until s' = 0"
    using step_reset by blast
  from a b c d show ?thesis by simp
qed

lemma reachable_locked_state: "reachable config_3_60 locked_state"
proof -
  let ?s0 = "\<lparr>username = [], failed_attempts = 0, lockout_until = 0\<rparr>"
  let ?s1 = "\<lparr>username = ''bob'', failed_attempts = 1, lockout_until = 0\<rparr>"
  let ?s2 = "\<lparr>username = ''bob'', failed_attempts = 2, lockout_until = 0\<rparr>"
  have r0: "reachable config_3_60 ?s0" by (rule reach_init)
  have e1: "auth_authenticate pam_reject_all 1000 1000 (Some ''bob'') (Some ''a'')
              (Some config_3_60) (Some ?s0)
            = (KIA_ERROR_AUTH, Some ?s1,
               [TtyLock, PamStart ''bob'', PamAuthenticate ''a'', PamEnd, TtyUnlock])"
    by (simp add: auth_defs Let_def pam_reject_all_def config_3_60_def)
  have r1: "reachable config_3_60 ?s1"
    by (rule reach_authenticate[OF r0 _ _ e1]) simp_all
  have e2: "auth_authenticate pam_reject_all 1001 1001 (Some ''bob'') (Some ''b'')
              (Some config_3_60) (Some ?s1)
            = (KIA_ERROR_AUTH, Some ?s2,
               [TtyLock, PamStart ''bob'', PamAuthenticate ''b'', PamEnd, TtyUnlock])"
    by (simp add: auth_defs Let_def pam_reject_all_def config_3_60_def)
  have r2: "reachable config_3_60 ?s2"
    by (rule reach_authenticate[OF r1 _ _ e2]) simp_all
  have e3: "auth_authenticate pam_reject_all 1002 1002 (Some ''bob'') (Some ''c'')
              (Some config_3_60) (Some ?s2)
            = (KIA_ERROR_AUTH, Some locked_state,
               [TtyLock, PamStart ''bob'', PamAuthenticate ''c'', PamEnd, TtyUnlock])"
    by (simp add: auth_defs Let_def pam_reject_all_def config_3_60_def locked_state_def)
  show ?thesis
    by (rule reach_authenticate[OF r2 _ _ e3]) simp_all
qed

theorem auth_reachable_invariant_witness:
  "config_validate (Some config_3_60) = KIA_SUCCESS \<and> reachable config_3_60 locked_state \<and>
   0 \<le> failed_attempts locked_state \<and>
   failed_attempts locked_state \<le> max_attempts config_3_60 \<and>
   lockout_until locked_state \<noteq> 0 \<and>
   failed_attempts locked_state = max_attempts config_3_60"
proof -
  have h1: "config_validate (Some config_3_60) = KIA_SUCCESS"
    by (simp add: config_validate_def config_3_60_def kia_codes MIN_MAX_ATTEMPTS_def
          MAX_MAX_ATTEMPTS_def)
  have h2: "reachable config_3_60 locked_state" by (rule reachable_locked_state)
  have h3: "lockout_until locked_state \<noteq> 0" by (simp add: locked_state_def)
  from auth_reachable_invariant[OF h1 h2] h1 h2 h3 show ?thesis by blast
qed

section \<open>Configuration provider: ranges and rejected lines\<close>

lemma parse_config_line_Some:
  "\<exists>rc c'. parse_config_line atoi (Some l) (Some c) = (rc, Some c')"
  by (simp add: parse_config_line_def Let_def)

lemma parse_config_line_in_range:
  assumes "parse_config_line atoi (Some l) (Some c) = (rc, Some c')" and "in_range c"
  shows "in_range c'"
  using assms
  by (auto simp: parse_config_line_def Let_def in_range_def MIN_MAX_ATTEMPTS_def
        MAX_MAX_ATTEMPTS_def split: if_splits)



lemma config_load_loop_in_range:
  "in_range c \<Longrightarrow> in_range (fst (config_load_loop atoi err stream c e))"
proof (induction atoi err stream c e rule: config_load_loop.induct)
  case (1 atoi err stream config has_error)
  show ?case
  proof (cases "fgets 1024 err stream")
    case None
    then show ?thesis using "1.prems"
      by (subst config_load_loop.simps) simp
  next
    case (Some t)
    then obtain line rest eof where t: "fgets 1024 err stream = Some (line, rest, eof)"
      by (cases t) auto
    show ?thesis
    proof (cases "cstr line \<noteq> [] \<and> last (cstr line) \<noteq> CHR 0x0A \<and> \<not> eof")
      case True
      then show ?thesis
        using "1.IH"(1)[OF t refl refl True "1.prems"] t
        by (subst config_load_loop.simps) simp
    next
      case False
      obtain rc c' where p: "parse_config_line atoi
                    (Some (trim_whitespace
                             (takeWhile (\<lambda>c. c \<noteq> CHR 0x0D \<and> c \<noteq> CHR 0x0A) (cstr line))))
                    (Some config) = (rc, Some c')"
        using parse_config_line_Some by blast
      have r: "in_range c'" using parse_config_line_in_range[OF p "1.prems"] .
      show ?thesis
        using "1.IH"(3)[OF t refl refl False p[symmetric] refl r] t False p
        by (subst config_load_loop.simps) auto
    qed
  qed
qed

lemma config_set_defaults_in_range: "in_range (config_set_defaults c)"
  by (simp add: in_range_def config_set_defaults_def config_defaults)

lemma in_range_validate: "in_range c \<Longrightarrow> config_validate (Some c) = KIA_SUCCESS"
  by (simp add: in_range_def config_validate_def MIN_MAX_ATTEMPTS_def MAX_MAX_ATTEMPTS_def)

lemma config_load_opened:
  assumes "p \<noteq> []" and "fopen p = Some (content, err)"
  shows "config_load atoi fopen (Some p) (Some c0) =
         (if snd (config_load_loop atoi err content (config_set_defaults c0) False) \<or> err
          then KIA_ERROR_CONFIG else KIA_SUCCESS,
          Some (fst (config_load_loop atoi err content (config_set_defaults c0) False)))"
proof -
  let ?r = "config_load_loop atoi err content (config_set_defaults c0) False"
  have "in_range (fst ?r)"
    by (rule config_load_loop_in_range[OF config_set_defaults_in_range])
  then have v: "config_validate (Some (fst ?r)) = KIA_SUCCESS" by (rule in_range_validate)
  obtain c e where r: "?r = (c, e)" by (cases ?r)
  show ?thesis
    using assms v r by (cases err; cases e) (simp_all add: config_load_def)
qed


lemma fgets_text_line:
  assumes "text_line l"
  shows "fgets 1024 err (l @ CHR 0x0A # rest) = Some (l @ [CHR 0x0A], rest, False)"
proof -
  have nl: "CHR 0x0A \<notin> set l" and len: "length l < 1023"
    using assms by (auto simp: text_line_def)
  have tw: "takeWhile (\<lambda>c. c \<noteq> CHR 0x0A) (take 1023 (l @ CHR 0x0A # rest)) = l"
  proof -
    have "take 1023 (l @ CHR 0x0A # rest) = l @ CHR 0x0A # take (1022 - length l) rest"
      using len by (simp add: take_Cons')
    moreover have "takeWhile (\<lambda>c. c \<noteq> CHR 0x0A) (l @ CHR 0x0A # ys) = l" for ys
      using nl by (induction l) auto
    ultimately show ?thesis by simp
  qed
  have la: "length l < length (take 1023 (l @ CHR 0x0A # rest))"
    using len by simp
  show ?thesis
    unfolding fgets_def Let_def using tw la by simp
qed

lemma loop_text_line:
  assumes "text_line l"
  shows "config_load_loop atoi err (l @ CHR 0x0A # rest) c e =
         config_load_loop atoi err rest (fst (accept_line atoi (c, e) l))
           (snd (accept_line atoi (c, e) l))"
proof -
  have nz: "CHR 0x00 \<notin> set l" and nl: "CHR 0x0A \<notin> set l"
    using assms by (auto simp: text_line_def)
  have cs: "cstr (l @ [CHR 0x0A]) = l @ [CHR 0x0A]"
    unfolding cstr_def using nz by (induction l) auto
  have st: "takeWhile (\<lambda>c. c \<noteq> CHR 0x0D \<and> c \<noteq> CHR 0x0A) (l @ [CHR 0x0A])
            = takeWhile (\<lambda>c. c \<noteq> CHR 0x0D \<and> c \<noteq> CHR 0x0A) l"
    by (induction l) auto
  obtain rc c' where p: "parse_config_line atoi (Some (strip_line l)) (Some c) = (rc, Some c')"
    using parse_config_line_Some by blast
  show ?thesis
    apply (subst config_load_loop.simps)
    apply (simp add: fgets_text_line[OF assms] cs st accept_line_def)
    using p apply (simp add: strip_line_def)
    done
qed

lemma loop_file_of_lines:
  assumes "\<forall>l \<in> set ls. text_line l"
  shows "config_load_loop atoi err (file_of_lines ls) c e = foldl (accept_line atoi) (c, e) ls"
  using assms
proof (induction ls arbitrary: c e)
  case Nil
  show ?case
    by (subst config_load_loop.simps) (simp add: file_of_lines_def fgets_def)
next
  case (Cons l ls)
  have "config_load_loop atoi err (file_of_lines (l # ls)) c e
        = config_load_loop atoi err (file_of_lines ls) (fst (accept_line atoi (c, e) l))
            (snd (accept_line atoi (c, e) l))"
    using loop_text_line[of l atoi err "file_of_lines ls" c e] Cons.prems
    by (simp add: file_of_lines_def)
  then show ?case using Cons by simp
qed

lemma config_load_text_file:
  assumes "\<forall>l \<in> set ls. text_line l" and "p \<noteq> []"
    and "fopen p = Some (file_of_lines ls, err)"
  shows "config_load atoi fopen (Some p) (Some c0) =
         (if snd (foldl (accept_line atoi) (config_set_defaults c0, False) ls) \<or> err
          then KIA_ERROR_CONFIG else KIA_SUCCESS,
          Some (fst (foldl (accept_line atoi) (config_set_defaults c0, False) ls)))"
  unfolding config_load_opened[where fopen = fopen and p = p, OF assms(2,3)]
    loop_file_of_lines[OF assms(1)] by simp

























lemmas parse_eval =
  parse_config_line_def strip_line_def trim_whitespace_def isspace_def parse_bool_def
  atoi_c_def isdigit_def digits_value_def Let_def MIN_MAX_ATTEMPTS_def MAX_MAX_ATTEMPTS_def
  kia_codes





lemma eval_atoi_c:
  "atoi_c ''  -42abc'' = -42 \<and> atoi_c ''abc'' = 0 \<and> atoi_c ''+7'' = 7 \<and> atoi_c [] = 0
   \<and> atoi_c ''7'' = 7"
  by (simp add: parse_eval)

lemma defaults_of_any: "config_set_defaults config_3_60 = default_config"
  by (simp add: config_set_defaults_def config_defaults config_3_60_def default_config_def)





text \<open>
  Remark. A value that is not a number is not rejected as such: \<open>atoi\<close> reads it as 0,
  which is out of range for \<open>max_attempts\<close> and in range for \<open>lockout_duration\<close>.
\<close>

lemma nonnumeric_duration_is_zero:
  "config_load atoi_c (\<lambda>p. Some (file_of_lines [''lockout_duration=abc''], False))
     (Some ''/etc/kia/config'') (Some config_3_60)
   = (KIA_SUCCESS, Some (default_config\<lparr>lockout_duration := 0\<rparr>))"
proof -
  have t: "\<forall>l \<in> set [''lockout_duration=abc'']. text_line l"
    by (simp add: text_line_def)
  have p: "''/etc/kia/config'' \<noteq> []" by simp
  have e: "accept_line atoi_c (c, e) ''lockout_duration=abc'' = (c\<lparr>lockout_duration := 0\<rparr>, e)"
    for c e
    by (simp add: accept_line_def parse_eval)
  show ?thesis
    unfolding config_load_text_file[where p = "''/etc/kia/config''"
        and fopen = "\<lambda>p. Some (file_of_lines [''lockout_duration=abc''], False)", OF t p refl]
    by (simp add: defaults_of_any e)
qed

section \<open>Session launcher: verification before execution\<close>

lemma checked_exits: "checked r = Inl e \<Longrightarrow> e = Exited EXIT_FAILURE"
  by (simp add: checked_def split: if_splits)

lemma and_then_exits:
  assumes "and_then m f = Inl e"
    and "\<And>e'. m = Inl e' \<Longrightarrow> e' = Exited EXIT_FAILURE"
    and "\<And>p e'. f p = Inl e' \<Longrightarrow> e' = Exited EXIT_FAILURE"
  shows "e = Exited EXIT_FAILURE"
  using assms by (cases m) (auto simp: and_then_def)

lemma child_drop_privileges_exits:
  assumes "child_drop_privileges k dir shell pw session user p0 = Inl e"
  shows "e = Exited EXIT_FAILURE"
  using assms unfolding child_drop_privileges_def
  by (elim and_then_exits checked_exits) (auto split: if_splits dest: checked_exits)

text \<open>
  C1. In the child of \<open>session_start\<close>, once the privilege drop has returned, a
  mismatch between any of the real user id, effective user id, real group id and
  effective group id of the process and the account's uid and gid makes the child exit
  with \<open>EXIT_FAILURE\<close>; no program is executed. Conversely, whenever the child executes
  a program, the privilege drop had completed and all four identities of the executing
  process equal the account's. The system calls are arbitrary, so this covers a
  \<open>setgid\<close> or \<open>setuid\<close> that reports success without effect.
\<close>

theorem session_exec_only_after_verified:
  "(\<forall>p. child_drop_privileges k dir shell pw session user p0 = Inr p \<and>
        (ruid p \<noteq> pw_uid pw \<or> euid p \<noteq> pw_uid pw \<or>
         rgid p \<noteq> pw_gid pw \<or> egid p \<noteq> pw_gid pw)
        \<longrightarrow> session_child k dir shell pw session user p0 = Exited EXIT_FAILURE) \<and>
   (\<forall>f args p. session_child k dir shell pw session user p0 = Executed f args p
        \<longrightarrow> child_drop_privileges k dir shell pw session user p0 = Inr p \<and>
            ruid p = pw_uid pw \<and> euid p = pw_uid pw \<and>
            rgid p = pw_gid pw \<and> egid p = pw_gid pw)"
proof -
  have a: "session_child k dir shell pw session user p0 = Exited EXIT_FAILURE"
    if "child_drop_privileges k dir shell pw session user p0 = Inr p \<and>
        (ruid p \<noteq> pw_uid pw \<or> euid p \<noteq> pw_uid pw \<or>
         rgid p \<noteq> pw_gid pw \<or> egid p \<noteq> pw_gid pw)" for p
    using that by (auto simp: session_child_def and_then_def verify_privileges_def)
  have b: "child_drop_privileges k dir shell pw session user p0 = Inr p \<and>
            ruid p = pw_uid pw \<and> euid p = pw_uid pw \<and>
            rgid p = pw_gid pw \<and> egid p = pw_gid pw"
    if "session_child k dir shell pw session user p0 = Executed f args p" for f args p
    using that
    by (auto simp: session_child_def and_then_def verify_privileges_def execute_session_def
        split: sum.splits if_splits dest: child_drop_privileges_exits)
  from a b show ?thesis by blast
qed

lemma drop_honest:
  "child_drop_privileges honest_kernel ''/home/alice'' ''/bin/bash'' alice xfce_session ''alice''
     root_process = Inr alice_process"
  by (simp add: child_drop_privileges_def and_then_def checked_def honest_kernel_def
        alice_def xfce_session_def root_process_def alice_process_def)

lemma drop_silent:
  "child_drop_privileges silent_setuid_kernel ''/home/alice'' ''/bin/bash'' alice xfce_session
     ''alice'' root_process = Inr half_dropped_process"
  by (simp add: child_drop_privileges_def and_then_def checked_def honest_kernel_def
        silent_setuid_kernel_def alice_def xfce_session_def root_process_def
        half_dropped_process_def)

lemma child_honest:
  "session_child honest_kernel ''/home/alice'' ''/bin/bash'' alice xfce_session ''alice''
     root_process = Executed ''startx'' [''startx'', ''startxfce4''] alice_process"
  unfolding session_child_def drop_honest
  by (simp add: and_then_def verify_privileges_def
        execute_session_def honest_kernel_def alice_def xfce_session_def alice_process_def)

theorem session_exec_only_after_verified_witness:
  "child_drop_privileges silent_setuid_kernel ''/home/alice'' ''/bin/bash'' alice xfce_session
     ''alice'' root_process = Inr half_dropped_process \<and>
   ruid half_dropped_process \<noteq> pw_uid alice \<and>
   session_child silent_setuid_kernel ''/home/alice'' ''/bin/bash'' alice xfce_session
     ''alice'' root_process = Exited EXIT_FAILURE \<and>
   session_child honest_kernel ''/home/alice'' ''/bin/bash'' alice xfce_session ''alice''
     root_process = Executed ''startx'' [''startx'', ''startxfce4''] alice_process \<and>
   ruid alice_process = pw_uid alice \<and> euid alice_process = pw_uid alice \<and>
   rgid alice_process = pw_gid alice \<and> egid alice_process = pw_gid alice"
proof -
  have m: "ruid half_dropped_process \<noteq> pw_uid alice"
    by (simp add: half_dropped_process_def alice_def)
  from session_exec_only_after_verified[of silent_setuid_kernel "''/home/alice''"
         "''/bin/bash''" alice xfce_session "''alice''" root_process] drop_silent m
  have a: "session_child silent_setuid_kernel ''/home/alice'' ''/bin/bash'' alice xfce_session
     ''alice'' root_process = Exited EXIT_FAILURE"
    by blast
  from session_exec_only_after_verified[of honest_kernel "''/home/alice''"
         "''/bin/bash''" alice xfce_session "''alice''" root_process] child_honest
  have b: "ruid alice_process = pw_uid alice \<and> euid alice_process = pw_uid alice \<and>
   rgid alice_process = pw_gid alice \<and> egid alice_process = pw_gid alice"
    by blast
  from a b m drop_silent child_honest show ?thesis by simp
qed

section \<open>Controller: the pending secret\<close>

text \<open>
  After \<open>handle_authenticate\<close> the password buffer is all NUL, on the locked-out path and
  after the authenticator call whatever its outcome; so it is on the one validation path
  of \<open>handle_get_credentials\<close> that clears the credentials, the over-long user name.
\<close>

lemma handle_authenticate_zeroes_password:
  assumes "length (ctx_password ctx) = 256"
  shows "ctx_password (fst (snd (handle_authenticate pam t0 t_check t_fail ctx)))
         = replicate 256 (CHR 0x00)"
  using assms
  by (auto simp: handle_authenticate_def Let_def secure_memzero_def split: prod.splits)

lemma handle_get_credentials_too_long_zeroes:
  assumes "tui (ctx_username ctx) (ctx_password ctx) = (KIA_SUCCESS, ubuf, pbuf)"
    and "length (cstr ubuf) > 255" and "length pbuf = 256"
  shows "ctx_password (snd (handle_get_credentials tui ctx)) = replicate 256 (CHR 0x00)"
  using assms
  by (auto simp: handle_get_credentials_def Let_def secure_memzero_def)

text \<open>
  C8 fails on the sibling paths of \<open>handle_get_credentials\<close>. When the collaborator
  returns success with an empty user name and a secret in the password buffer, the
  handler goes back to \<open>STATE_SHOW_LOGIN\<close> and the buffer still reads \<open>secret\<close>. The same
  holds on the read-failure path: after a failed read that left a partly typed secret,
  the handler goes back to \<open>STATE_SHOW_LOGIN\<close> with the buffer untouched.
\<close>

theorem handle_get_credentials_keeps_secret:
  "handle_get_credentials tui_empty_username login_context
     = (KIA_SUCCESS,
        login_context\<lparr>ctx_username := zero_buffer, ctx_password := secret_buffer,
                       ctx_state := STATE_SHOW_LOGIN\<rparr>) \<and>
   cstr secret_buffer = ''secret'' \<and>
   handle_get_credentials tui_read_failure login_context
     = (KIA_ERROR_SYSTEM,
        login_context\<lparr>ctx_username := bob_buffer, ctx_password := partial_secret_buffer,
                       ctx_state := STATE_SHOW_LOGIN\<rparr>) \<and>
   cstr partial_secret_buffer = ''secr''"
  by (simp add: handle_get_credentials_def tui_empty_username_def tui_read_failure_def
        Let_def cstr_def zero_buffer_def secret_buffer_def partial_secret_buffer_def kia_codes)

end
